theory Spec2Isabelle
  imports Complex_Main "HOL-Library.Char_ord" "HOL-Library.List_Lexorder"
    "HOL-Library.Product_Lexorder"
begin

section \<open>Errors and the noise generator\<close>

text \<open>
  Exceptions of the Python code are values. \<open>str_error\<close> is the text that
  \<^verbatim>\<open>f'{e}'\<close> embeds for an exception \<open>e\<close>.
\<close>

datatype error =
    ZeroDivisionError
  | ValueError string
  | IndexError string
  | LibError string

fun str_error :: "error \<Rightarrow> string" where
  "str_error ZeroDivisionError = ''division by zero''"
| "str_error (ValueError m) = m"
| "str_error (IndexError m) = m"
| "str_error (LibError m) = m"

text \<open>
  \<^verbatim>\<open>rng = np.random.default_rng(42)\<close> creates a generator whose successive standard
  normal variates form one fixed sequence \<open>z 0, z 1, ...\<close>; the sequence is a parameter
  of the development. The state of the generator is the number of variates consumed.
  \<^verbatim>\<open>rng.normal(loc, scale)\<close> consumes one variate and returns \<open>loc + scale * variate\<close>;
  it raises ValueError for a negative scale.
\<close>

type_synonym stream = "nat \<Rightarrow> real"

definition rng_normal :: "stream \<Rightarrow> nat \<Rightarrow> real \<Rightarrow> real \<Rightarrow> error + (real \<times> nat)" where
  "rng_normal z g loc scale =
     (if scale < 0 then Inl (ValueError ''scale < 0'')
      else Inr (loc + scale * z g, Suc g))"

section \<open>The series synthesizer\<close>

text \<open>
  Python floats are idealised as reals. \<^verbatim>\<open>round(x)\<close> with one argument rounds half to even
  and returns an integer.
\<close>

definition py_round :: "real \<Rightarrow> int" where
  "py_round x =
     (let f = \<lfloor>x\<rfloor>; d = x - of_int f
      in if d < 1/2 then f
         else if 1/2 < d then f + 1
         else if even f then f else f + 1)"

text \<open>
  Lines 86 to 88: the provisional series, one draw per year.
  \<^verbatim>\<open>for i, y in enumerate(YEARS):
      val = max(0.0, base + slope * i + rng.normal(0, base * 0.1))
      yearly.append(val)\<close>
\<close>

fun provisional ::
  "stream \<Rightarrow> real \<Rightarrow> real \<Rightarrow> nat \<Rightarrow> int list \<Rightarrow> nat \<Rightarrow> error + (real list \<times> nat)" where
  "provisional z base slope i [] g = Inr ([], g)"
| "provisional z base slope i (y # ys) g =
     (case rng_normal z g 0 (base * 0.1) of
        Inl e \<Rightarrow> Inl e
      | Inr (x, g') \<Rightarrow>
          (case provisional z base slope (Suc i) ys g' of
             Inl e \<Rightarrow> Inl e
           | Inr (vs, g'') \<Rightarrow> Inr (max 0 (base + slope * real i + x) # vs, g'')))"

text \<open>
  Lines 93 to 95: the rounding drift goes to the last year.
  \<^verbatim>\<open>diff = total_cases - sum(yearly)
  if diff != 0:
      yearly[-1] += diff\<close>
  \<^verbatim>\<open>yearly[-1]\<close> raises IndexError on an empty list.
\<close>

definition correct_drift :: "int \<Rightarrow> int list \<Rightarrow> error + int list" where
  "correct_drift total_cases yearly =
     (let diff = total_cases - sum_list yearly
      in if diff \<noteq> 0 then
           (if yearly = [] then Inl (IndexError ''list index out of range'')
            else Inr (yearly[length yearly - 1 := yearly ! (length yearly - 1) + diff]))
         else Inr yearly)"

text \<open>
  Lines 80 to 95, the body of the loop over the entities, for one entity: the series of
  one total over the years \<open>years\<close>, and the generator state after it.
  \<^verbatim>\<open>total_cases / len(YEARS)\<close> raises ZeroDivisionError when there is no year.
\<close>

definition synthesize :: "stream \<Rightarrow> int list \<Rightarrow> int \<Rightarrow> nat \<Rightarrow> error + (int list \<times> nat)" where
  "synthesize z years total_cases g =
     (if length years = 0 then Inl ZeroDivisionError
      else
        let base = real_of_int total_cases / real (length years);
            slope = (if total_cases > 10000 then 0.15 else 0.05) * base / real (length years)
        in case provisional z base slope 0 years g of
             Inl e \<Rightarrow> Inl e
           | Inr (vs, g') \<Rightarrow>
               let scale = real_of_int total_cases / max (1 / 10 ^ 9) (sum_list vs);
                   yearly = map (\<lambda>v. max 0 (py_round (v * scale))) vs
               in (case correct_drift total_cases yearly of
                     Inl e \<Rightarrow> Inl e
                   | Inr yearly' \<Rightarrow> Inr (yearly', g')))"

definition YEARS :: "int list" where
  "YEARS = [2007 .. 2022]"

definition FORECAST_HORIZON :: int where
  "FORECAST_HORIZON = 3"

section \<open>The database\<close>

text \<open>
  A row of \<^verbatim>\<open>disease_cases_yearly\<close> is the tuple (disease, year, cases, source) that the
  code inserts; its primary key is (disease, year). A row of \<^verbatim>\<open>kenya_outbreaks_2007_2022\<close>
  is read as (disease, cases).
\<close>

type_synonym yearly_row = "string \<times> int \<times> int \<times> string"

record db =
  outbreaks :: "(string \<times> int) list"
  cases_yearly :: "yearly_row list"

definition row_key :: "yearly_row \<Rightarrow> string \<times> int" where
  "row_key r = (case r of (disease, y, c, src) \<Rightarrow> (disease, y))"

text \<open>
  \<^verbatim>\<open>INSERT INTO disease_cases_yearly ... ON CONFLICT (disease, year) DO NOTHING\<close>:
  a row whose key is already in the table is skipped.
\<close>

fun insert_do_nothing :: "yearly_row list \<Rightarrow> yearly_row list \<Rightarrow> yearly_row list" where
  "insert_do_nothing tbl [] = tbl"
| "insert_do_nothing tbl (r # rs) =
     insert_do_nothing (if row_key r \<in> set (map row_key tbl) then tbl else tbl @ [r]) rs"

text \<open>
  \<^verbatim>\<open>SELECT disease, cases FROM kenya_outbreaks_2007_2022 ORDER BY cases DESC\<close>.
  Rows with equal cases keep the order of the table.
\<close>

definition select_totals :: "db \<Rightarrow> (string \<times> int) list" where
  "select_totals d = sort_key (\<lambda>r. - snd r) (outbreaks d)"

text \<open>
  Lines 78 to 98: the loop over the entities. One generator serves the whole loop; each
  entity's rows are appended in the order of the years.
\<close>

fun synth_rows ::
  "stream \<Rightarrow> int list \<Rightarrow> (string \<times> int) list \<Rightarrow> nat \<Rightarrow> error + yearly_row list" where
  "synth_rows z years [] g = Inr []"
| "synth_rows z years ((disease, total_cases) # totals) g =
     (case synthesize z years total_cases g of
        Inl e \<Rightarrow> Inl e
      | Inr (yearly, g') \<Rightarrow>
          (case synth_rows z years totals g' of
             Inl e \<Rightarrow> Inl e
           | Inr rows \<Rightarrow>
               Inr (map (\<lambda>(y, c). (disease, y, c, ''synthetic'')) (zip years yearly) @ rows)))"

text \<open>
  \<^verbatim>\<open>build_synthetic_if_empty\<close>: nothing happens when the table has a row; otherwise a fresh
  generator is created (state 0) and the synthetic rows are inserted.
\<close>

definition build_synthetic_if_empty :: "stream \<Rightarrow> db \<Rightarrow> error + db" where
  "build_synthetic_if_empty z d =
     (if length (cases_yearly d) > 0 then Inr d
      else
        (case synth_rows z YEARS (select_totals d) 0 of
           Inl e \<Rightarrow> Inl e
         | Inr rows \<Rightarrow> Inr (d\<lparr>cases_yearly := insert_do_nothing (cases_yearly d) rows\<rparr>)))"

section \<open>The forecast engine\<close>

text \<open>
  A float that may be infinite or NaN; finite floats are idealised as reals. The case counts
  are integers of the database, so the series itself is finite; the values that the
  smoothing library returns need not be.
\<close>

datatype fl = Fin real | PInf | NInf | NaN


fun fl_neg :: "fl \<Rightarrow> fl" where
  "fl_neg (Fin r) = Fin (- r)"
| "fl_neg PInf = NInf"
| "fl_neg NInf = PInf"
| "fl_neg NaN = NaN"

fun fl_add :: "fl \<Rightarrow> fl \<Rightarrow> fl" where
  "fl_add NaN y = NaN"
| "fl_add x NaN = NaN"
| "fl_add (Fin a) (Fin b) = Fin (a + b)"
| "fl_add PInf NInf = NaN"
| "fl_add NInf PInf = NaN"
| "fl_add PInf y = PInf"
| "fl_add NInf y = NInf"
| "fl_add (Fin a) y = y"

definition fl_sub :: "fl \<Rightarrow> fl \<Rightarrow> fl" where
  "fl_sub x y = fl_add x (fl_neg y)"

text \<open>The product of a positive constant and a float.\<close>

fun fl_scale :: "real \<Rightarrow> fl \<Rightarrow> fl" where
  "fl_scale c (Fin r) = Fin (c * r)"
| "fl_scale c x = x"

text \<open>
  \<^verbatim>\<open>Series.std(ddof=1)\<close>: NaN entries are skipped; NaN when at most one entry is left or
  when an entry is infinite.
\<close>

definition fl_std :: "fl list \<Rightarrow> fl" where
  "fl_std xs =
     (let vals = filter (\<lambda>x. x \<noteq> NaN) xs;
          rs = List.map_filter (\<lambda>x. case x of Fin r \<Rightarrow> Some r | _ \<Rightarrow> None) vals;
          n = length vals
      in if n \<le> 1 then NaN
         else if length rs < n then NaN
         else
           let m = sum_list rs / real n
           in Fin (sqrt (sum_list (map (\<lambda>r. (r - m)\<^sup>2) rs) / real (n - 1))))"

text \<open>
  \<^verbatim>\<open>s = series_df.set_index('year')['cases'].astype(float).sort_index()\<close>: the series
  indexed by year, in the order of the years.
\<close>

definition series_of :: "(int \<times> int) list \<Rightarrow> (int \<times> real) list" where
  "series_of series_df = sort_key fst (map (\<lambda>(y, c). (y, real_of_int c)) series_df)"

text \<open>\<^verbatim>\<open>s.sum()\<close> and \<^verbatim>\<open>s.mean()\<close>; the mean of an empty series is NaN.\<close>

definition series_sum :: "(int \<times> real) list \<Rightarrow> real" where
  "series_sum s = sum_list (map snd s)"

definition series_mean :: "(int \<times> real) list \<Rightarrow> fl" where
  "series_mean s = (if s = [] then NaN else Fin (series_sum s / real (length s)))"

text \<open>
  The smoothing library is outside the repository.
  \<^verbatim>\<open>ExponentialSmoothing(s, trend='add', seasonal=None,
      initialization_method='estimated').fit(optimized=True)\<close>
  is a parameter: given the series it raises, or returns a fitted model with its fitted
  values (one per observation, in the order of the series) and its \<^verbatim>\<open>forecast\<close> method,
  which may raise as well.
\<close>

record hw_model =
  fittedvalues :: "fl list"
  forecast :: "int \<Rightarrow> error + fl list"

type_synonym fitter = "(int \<times> real) list \<Rightarrow> error + hw_model"

text \<open>Lines 128 to 137: the body of the \<^verbatim>\<open>try\<close>.\<close>

definition try_fit ::
  "fitter \<Rightarrow> (int \<times> real) list \<Rightarrow> int \<Rightarrow> error + (fl list \<times> fl list \<times> fl list \<times> string)" where
  "try_fit fit s horizon =
     (case fit s of
        Inl e \<Rightarrow> Inl e
      | Inr model \<Rightarrow>
          (case forecast model horizon of
             Inl e \<Rightarrow> Inl e
           | Inr fc \<Rightarrow>
               let resid = map2 fl_sub (map (\<lambda>p. Fin (snd p)) s) (fittedvalues model);
                   sd = (if length resid > 1 then fl_std resid
                         else (case series_mean s of
                                 Fin m \<Rightarrow> if m > 0 then Fin (0.15 * m) else Fin 1
                               | _ \<Rightarrow> Fin 1));
                   lower = map (\<lambda>x. fl_sub x (fl_scale 1.96 sd)) fc;
                   upper = map (\<lambda>x. fl_add x (fl_scale 1.96 sd)) fc
               in Inr (fc, lower, upper, ''holt-winters-additive'')))"

text \<open>
  \<^verbatim>\<open>fit_and_forecast(series_df, horizon)\<close>. \<^verbatim>\<open>[x] * horizon\<close> is the empty list for a
  horizon below 1. Every exception of the \<^verbatim>\<open>try\<close> body is caught, so the function
  returns a tuple on every input.
\<close>

definition fit_and_forecast ::
  "fitter \<Rightarrow> (int \<times> int) list \<Rightarrow> int \<Rightarrow> fl list \<times> fl list \<times> fl list \<times> string" where
  "fit_and_forecast fit series_df horizon =
     (let s = series_of series_df
      in if length s < 4 \<or> series_sum s = 0 then
           (let f = replicate (nat horizon) (series_mean s)
            in (f, f, f, ''naive-mean''))
         else
           (case try_fit fit s horizon of
              Inr r \<Rightarrow> r
            | Inl e \<Rightarrow>
                (let f = replicate (nat horizon) (series_mean s)
                 in (f, f, f, ''fallback-mean ('' @ str_error e @ '')''))))"

section \<open>The orchestrator\<close>

text \<open>
  \<^verbatim>\<open>fetch_timeseries\<close>: the rows ordered by disease and year, grouped by disease (the
  groups in the order of their keys), and the provenance of the whole table.
  \<open>select_group\<close> is the frame \<^verbatim>\<open>g[['year','cases']]\<close> of one disease.
\<close>

definition select_group :: "yearly_row list \<Rightarrow> string \<Rightarrow> (int \<times> int) list" where
  "select_group df k =
     map (\<lambda>(disease, y, c, src). (y, c)) (filter (\<lambda>(disease, y, c, src). disease = k) df)"

definition fetch_timeseries :: "db \<Rightarrow> (string \<times> (int \<times> int) list) list \<times> string" where
  "fetch_timeseries d =
     (let df = sort_key row_key (cases_yearly d);
          keys = sort (remdups (map fst df))
      in (map (\<lambda>k. (k, select_group df k)) keys,
          if list_ex (\<lambda>(disease, y, c, src). src \<noteq> ''synthetic'') df
          then ''real'' else ''synthetic''))"

type_synonym forecast_row = "string \<times> int \<times> fl \<times> fl \<times> fl \<times> string \<times> string"

text \<open>\<^verbatim>\<open>a[i]\<close> on an array raises IndexError out of range.\<close>

definition at_index :: "'a list \<Rightarrow> nat \<Rightarrow> error + 'a" where
  "at_index xs i = (if i < length xs then Inr (xs ! i) else Inl (IndexError ''index out of bounds''))"

fun collect :: "('a \<Rightarrow> error + 'b) \<Rightarrow> 'a list \<Rightarrow> error + 'b list" where
  "collect f [] = Inr []"
| "collect f (x # xs) =
     (case f x of
        Inl e \<Rightarrow> Inl e
      | Inr y \<Rightarrow> (case collect f xs of Inl e \<Rightarrow> Inl e | Inr ys \<Rightarrow> Inr (y # ys)))"

fun list_max :: "int list \<Rightarrow> int" where
  "list_max [] = 0"
| "list_max (x # xs) = fold max xs x"

text \<open>
  Lines 172 to 179, the body of the loop of \<^verbatim>\<open>main\<close> for one entity, with the horizon as a
  parameter. \<^verbatim>\<open>int(df['year'].max())\<close> raises ValueError on an empty frame (the maximum
  is NaN).
\<close>

definition entity_rows ::
  "fitter \<Rightarrow> int \<Rightarrow> string \<Rightarrow> string \<times> (int \<times> int) list \<Rightarrow> error + forecast_row list" where
  "entity_rows fit horizon data_source e =
     (case e of (disease, df) \<Rightarrow>
        (case fit_and_forecast fit df horizon of (fc, lo, hi, method) \<Rightarrow>
           if df = [] then Inl (ValueError ''cannot convert float NaN to integer'')
           else
             let start_year = list_max (map fst df) + 1
             in collect
                  (\<lambda>i. case at_index fc i of
                          Inl e \<Rightarrow> Inl e
                        | Inr f \<Rightarrow>
                            (case at_index lo i of
                               Inl e \<Rightarrow> Inl e
                             | Inr l \<Rightarrow>
                                 (case at_index hi i of
                                    Inl e \<Rightarrow> Inl e
                                  | Inr h \<Rightarrow>
                                      Inr (disease, start_year + int i, f, l, h, method,
                                           data_source))))
                  [0 ..< nat horizon]))"

text \<open>Lines 168 to 179: the rows handed to \<^verbatim>\<open>write_forecasts\<close>.\<close>

definition forecast_rows :: "fitter \<Rightarrow> int \<Rightarrow> db \<Rightarrow> error + forecast_row list" where
  "forecast_rows fit horizon d =
     (case fetch_timeseries d of (ts_map, data_source) \<Rightarrow>
        (case collect (entity_rows fit horizon data_source) ts_map of
           Inl e \<Rightarrow> Inl e
         | Inr rowss \<Rightarrow> Inr (concat rowss)))"

text \<open>
  \<^verbatim>\<open>main\<close>: the synthesis step, then the forecasts of every entity. The result is the
  database after the run and the forecast rows handed to \<^verbatim>\<open>write_forecasts\<close>. Opening
  the connection and creating the two tables are left out.
\<close>

definition main :: "stream \<Rightarrow> fitter \<Rightarrow> db \<Rightarrow> error + (db \<times> forecast_row list)" where
  "main z fit d =
     (case build_synthetic_if_empty z d of
        Inl e \<Rightarrow> Inl e
      | Inr d' \<Rightarrow>
          (case forecast_rows fit FORECAST_HORIZON d' of
             Inl e \<Rightarrow> Inl e
           | Inr all_rows \<Rightarrow> Inr (d', all_rows)))"

section \<open>Columns\<close>

abbreviation row_disease :: "yearly_row \<Rightarrow> string" where
  "row_disease r \<equiv> fst r"

abbreviation row_year :: "yearly_row \<Rightarrow> int" where
  "row_year r \<equiv> fst (snd r)"

abbreviation row_source :: "yearly_row \<Rightarrow> string" where
  "row_source r \<equiv> snd (snd (snd r))"

abbreviation fc_disease :: "forecast_row \<Rightarrow> string" where
  "fc_disease r \<equiv> fst r"

abbreviation fc_year :: "forecast_row \<Rightarrow> int" where
  "fc_year r \<equiv> fst (snd r)"

abbreviation fc_data_source :: "forecast_row \<Rightarrow> string" where
  "fc_data_source r \<equiv> snd (snd (snd (snd (snd (snd r)))))"

abbreviation group_of :: "db \<Rightarrow> string \<Rightarrow> (int \<times> int) list" where
  "group_of d k \<equiv> select_group (sort_key row_key (cases_yearly d)) k"

section \<open>Sample inputs\<close>

text \<open>
  Sixteen draws of a standard normal generator, all within two standard deviations, followed
  by zeros.
\<close>

definition sample_draws :: stream where
  "sample_draws n =
     (let ds = [0.3047, -1.04, 0.7505, 0.9406, -1.951, -1.3022, 0.1278, -0.3162,
                -0.0168, -0.853, 0.8794, 0.7778, 0.066, 1.1272, 0.4675, -0.8593]
      in if n < length ds then ds ! n else 0)"

text \<open>A fit that always raises, and a fit that reproduces the series and forecasts its last value.\<close>

definition failing_fit :: fitter where
  "failing_fit s = Inl (LibError ''optimizer failed'')"

definition sample_fit :: fitter where
  "sample_fit s =
     Inr \<lparr>fittedvalues = map (\<lambda>p. Fin (snd p)) s,
          forecast = (\<lambda>h. Inr (replicate (nat h) (Fin (snd (last s)))))\<rparr>"

text \<open>A database with a populated series table, and one with an empty series table.\<close>

definition sample_db :: db where
  "sample_db = \<lparr>outbreaks = [(''cholera'', 24)],
                 cases_yearly = [(''cholera'', 2022, 7, ''synthetic''),
                                 (''cholera'', 2021, 5, ''real'')]\<rparr>"


section \<open>Properties of the synthesizer\<close>

lemma map_upt_Suc_shift:
  "map f [0..<Suc n] = f 0 # map (\<lambda>k. f (Suc k)) [0..<n]"
proof -
  have "[0..<Suc n] = 0 # [Suc 0..<Suc n]"
    by (rule upt_conv_Cons) simp
  also have "[Suc 0..<Suc n] = map Suc [0..<n]"
    by (rule map_Suc_upt[symmetric])
  finally show ?thesis by (simp add: comp_def)
qed

text \<open>
  The provisional loop never fails for a non-negative base; it consumes one draw per year,
  whatever the values are.
\<close>

lemma provisional_closed:
  "0 \<le> base \<Longrightarrow>
   provisional z base slope i ys g =
     Inr (map (\<lambda>k. max 0 (base + slope * real (i + k) + base * 0.1 * z (g + k))) [0..<length ys],
          g + length ys)"
proof (induction ys arbitrary: i g)
  case Nil
  then show ?case by simp
next
  case (Cons y ys)
  have u: "length (y # ys) = Suc (length ys)" by simp
  show ?case using Cons.prems Cons.IH[OF Cons.prems, of "Suc i" "Suc g"]
    by (simp only: u map_upt_Suc_shift) (simp add: rng_normal_def add_ac)
qed

lemma sum_list_bump:
  "k < length xs \<Longrightarrow> sum_list (xs[k := xs ! k + d]) = sum_list xs + (d::int)"
proof (induction xs arbitrary: k)
  case Nil
  then show ?case by simp
next
  case (Cons x xs)
  then show ?case by (cases k) simp_all
qed

lemma correct_drift_sum:
  assumes "yearly \<noteq> []"
  shows "\<exists>ys. correct_drift t yearly = Inr ys \<and> sum_list ys = t \<and> length ys = length yearly"
proof -
  have "length yearly - 1 < length yearly" using assms by (cases yearly) auto
  then have "sum_list (yearly[length yearly - 1 := yearly ! (length yearly - 1) + d])
      = sum_list yearly + d" for d
    by (rule sum_list_bump)
  then show ?thesis
    by (simp add: correct_drift_def Let_def assms)
qed

lemma len_years: "length YEARS = 16"
  by (simp add: YEARS_def)

lemma synthesize_ok:
  assumes "0 \<le> total_cases" and "years \<noteq> []"
  shows "\<exists>yearly. synthesize z years total_cases g = Inr (yearly, g + length years)
           \<and> length yearly = length years \<and> sum_list yearly = total_cases"
proof -
  let ?base = "real_of_int total_cases / real (length years)"
  let ?slope = "(if total_cases > 10000 then 0.15 else 0.05) * ?base / real (length years)"
  have b: "0 \<le> ?base" using assms by simp
  define vs where "vs = map (\<lambda>k. max 0 (?base + ?slope * real (0 + k) + ?base * 0.1 * z (g + k)))
      [0..<length years]"
  have p: "provisional z ?base ?slope 0 years g = Inr (vs, g + length years)"
    unfolding vs_def by (rule provisional_closed[OF b])
  have lv: "length vs = length years" by (simp add: vs_def)
  let ?scale = "real_of_int total_cases / max (1 / 10 ^ 9) (sum_list vs)"
  let ?yearly = "map (\<lambda>v. max 0 (py_round (v * ?scale))) vs"
  have "?yearly \<noteq> []" using lv assms(2) by auto
  from correct_drift_sum[OF this, of total_cases] obtain ys where
    "correct_drift total_cases ?yearly = Inr ys" "sum_list ys = total_cases"
    "length ys = length ?yearly" by blast
  then show ?thesis using p lv assms(2) by (simp add: synthesize_def Let_def)
qed

text \<open>
  C1. For a non-negative total and a non-empty range of years the synthesizer returns a
  series, one value per year, whose sum is the total exactly.
\<close>

theorem synthesize_sum_exact:
  assumes "0 \<le> total_cases" and "years \<noteq> []"
  shows "\<exists>yearly g'. synthesize z years total_cases g = Inr (yearly, g')
           \<and> length yearly = length years \<and> sum_list yearly = total_cases"
  using synthesize_ok[OF assms, of z g] by blast

theorem synthesize_sum_exact_witness:
  "(0::int) \<le> 24 \<and> YEARS \<noteq> [] \<and>
   (\<exists>yearly g'. synthesize sample_draws YEARS 24 0 = Inr (yearly, g')
        \<and> length yearly = length YEARS \<and> sum_list yearly = 24)"
proof -
  have y: "YEARS \<noteq> []" using len_years by auto
  show ?thesis using y synthesize_sum_exact[of 24 YEARS sample_draws 0] by simp
qed

text \<open>
  Every value but the last is non-negative: the clamp of line 90 stands for all years that
  the drift correction does not touch.
\<close>

lemma correct_drift_butlast:
  "correct_drift t yearly = Inr ys \<Longrightarrow> butlast ys = butlast yearly"
  by (auto simp: correct_drift_def Let_def butlast_list_update split: if_splits)

lemma synthesize_butlast_nonneg:
  assumes "synthesize z years t g = Inr (ys, g')"
  shows "\<forall>v\<in>set (butlast ys). 0 \<le> v"
proof -
  from assms obtain vs where
    c: "correct_drift t (map (\<lambda>v. max 0 (py_round (v * (real_of_int t / max (1 / 10 ^ 9) (sum_list vs))))) vs) = Inr ys"
    by (auto simp: synthesize_def Let_def split: if_splits sum.splits)
  have "\<forall>v\<in>set (map (\<lambda>v. max 0 (py_round (v * (real_of_int t / max (1 / 10 ^ 9) (sum_list vs))))) vs). 0 \<le> v"
    by simp
  then have "\<forall>v\<in>set (butlast (map (\<lambda>v. max 0 (py_round (v * (real_of_int t / max (1 / 10 ^ 9) (sum_list vs))))) vs)). 0 \<le> v"
    by (meson in_set_butlastD)
  then show ?thesis using correct_drift_butlast[OF c] by simp
qed

lemma upt16: "[0..<16] = [0, 1, 2, 3, 4, 5, 6, 7, 8, 9, 10, 11, 12, 13, 14, 15 :: nat]"
  by code_simp

lemma sample_provisional:
  "provisional sample_draws (3/2) (3/640) 0 YEARS 0 =
     Inr ([309141/200000, 21579/16000, 32439/20000, 662061/400000, 12261/10000,
           531243/400000, 309459/200000, 594153/400000, 76749/50000, 113139/80000,
           335757/200000, 667293/400000, 31323/20000, 692007/400000, 6543/4000,
           576567/400000], 16)"
  using provisional_closed[of "3/2" sample_draws "3/640" 0 YEARS 0]
  by (simp add: len_years sample_draws_def upt16)

lemma sample_rounded:
  "map (\<lambda>v. max 0 (py_round (v * (160000/162853))))
     [309141/200000, 21579/16000, 32439/20000, 662061/400000, 12261/10000, 531243/400000,
      309459/200000, 594153/400000, 76749/50000, 113139/80000, 335757/200000, 667293/400000,
      31323/20000, 692007/400000, 6543/4000, 576567/400000 :: real] =
   [2, 1, 2, 2, 1, 1, 2, 1, 2, 1, 2, 2, 2, 2, 2, 1]"
  by (simp add: py_round_def Let_def)

lemma sample_drift:
  "correct_drift 24 [2, 1, 2, 2, 1, 1, 2, 1, 2, 1, 2, 2, 2, 2, 2, 1] =
     Inr [2, 1, 2, 2, 1, 1, 2, 1, 2, 1, 2, 2, 2, 2, 2, - 1]"
  by (simp add: correct_drift_def Let_def)

lemma sample_series:
  "synthesize sample_draws YEARS 24 0 =
     Inr ([2, 1, 2, 2, 1, 1, 2, 1, 2, 1, 2, 2, 2, 2, 2, - 1], 16)"
proof -
  have p: "provisional sample_draws (real_of_int 24 / real (length YEARS))
        ((if (24::int) > 10000 then 0.15 else 0.05) * (real_of_int 24 / real (length YEARS))
           / real (length YEARS)) 0 YEARS 0
     = Inr ([309141/200000, 21579/16000, 32439/20000, 662061/400000, 12261/10000,
             531243/400000, 309459/200000, 594153/400000, 76749/50000, 113139/80000,
             335757/200000, 667293/400000, 31323/20000, 692007/400000, 6543/4000,
             576567/400000], 16)"
    using sample_provisional by (simp add: len_years)
  have sc: "real_of_int 24 / max (1 / 10 ^ 9)
       (sum_list [309141/200000, 21579/16000, 32439/20000, 662061/400000, 12261/10000,
                  531243/400000, 309459/200000, 594153/400000, 76749/50000, 113139/80000,
                  335757/200000, 667293/400000, 31323/20000, 692007/400000, 6543/4000,
                  576567/400000 :: real]) = 160000/162853"
    by simp
  show ?thesis
    unfolding synthesize_def Let_def p
    by (simp only: sc sample_rounded sample_drift sum.case prod.case len_years) simp
qed

text \<open>
  C2. The values before the drift correction are clamped at zero, but the correction is
  added to the last year without a clamp. For a total of 24 over the sixteen years and the
  sample draws, the rounded values sum to 26, so the last year becomes \<open>1 - 2 = -1\<close>.
\<close>

theorem synthesize_last_year_negative:
  "synthesize sample_draws YEARS 24 0 =
     Inr ([2, 1, 2, 2, 1, 1, 2, 1, 2, 1, 2, 2, 2, 2, 2, - 1], 16)
   \<and> last [2, 1, 2, 2, 1, 1, 2, 1, 2, 1, 2, 2, 2, 2, 2, - 1 :: int] < 0"
  using sample_series by simp

section \<open>Properties of the forecast engine\<close>

lemma length_series_of: "length (series_of df) = length df"
  by (simp add: series_of_def)

lemma series_of_Nil_iff: "series_of df = [] \<longleftrightarrow> df = []"
  using length_series_of[of df] by (metis length_0_conv)

lemma sum_list_insort_key:
  "sum_list (map g (insort_key f x xs)) = g x + sum_list (map g xs)" for g :: "'a \<Rightarrow> real"
  by (induction xs) simp_all

lemma sum_list_sort_key:
  "sum_list (map g (sort_key f xs)) = sum_list (map g xs)" for g :: "'a \<Rightarrow> real"
  by (induction xs) (simp_all add: sum_list_insort_key)

lemma series_sum_of: "series_sum (series_of df) = real_of_int (sum_list (map snd df))"
proof -
  have "sum_list (map snd (map (\<lambda>(y, c). (y, real_of_int c)) df)) = real_of_int (sum_list (map snd df))"
    by (induction df) auto
  then show ?thesis by (simp add: series_sum_def series_of_def sum_list_sort_key)
qed

lemma series_mean_of:
  "df \<noteq> [] \<Longrightarrow> series_mean (series_of df) = Fin (real_of_int (sum_list (map snd df)) / real (length df))"
  by (simp add: series_mean_def series_of_Nil_iff series_sum_of length_series_of)



text \<open>
  C4. In the Fit state (at least 4 points, a non-zero sum), when the fit or the forecast of
  the fitted model raises an error \<open>e\<close>, the result is the mean of the series repeated
  horizon times, three times over, with the tag \<^verbatim>\<open>fallback-mean (\<close>text of \<open>e\<close>\<^verbatim>\<open>)\<close>. The
  function returns this tuple: its type has no error alternative.
\<close>

theorem fit_failure_falls_back:
  assumes "\<not> (length series_df < 4 \<or> sum_list (map snd series_df) = 0)" and "1 \<le> horizon"
    and "fit (series_of series_df) = Inl e
         \<or> (\<exists>m. fit (series_of series_df) = Inr m \<and> forecast m horizon = Inl e)"
  shows "fit_and_forecast fit series_df horizon =
           (let f = replicate (nat horizon)
                      (Fin (real_of_int (sum_list (map snd series_df)) / real (length series_df)))
            in (f, f, f, ''fallback-mean ('' @ str_error e @ '')''))
         \<and> int (length (fst (fit_and_forecast fit series_df horizon))) = horizon"
proof -
  have ne: "series_df \<noteq> []" using assms(1) by auto
  have c: "\<not> (length (series_of series_df) < 4 \<or> series_sum (series_of series_df) = 0)"
    using assms(1) by (simp add: length_series_of series_sum_of)
  have t: "try_fit fit (series_of series_df) horizon = Inl e"
    using assms(3) by (auto simp: try_fit_def)
  show ?thesis using c t assms(2)
    by (simp add: fit_and_forecast_def Let_def series_mean_of[OF ne])
qed








theorem fit_failure_falls_back_witness:
  "\<not> (length [(2019, 100), (2020, 120), (2021, 140), (2022, 160::int)] < 4
       \<or> sum_list (map snd [(2019::int, 100::int), (2020, 120), (2021, 140), (2022, 160)]) = 0) \<and>
   (1::int) \<le> 3 \<and>
   failing_fit (series_of [(2019, 100), (2020, 120), (2021, 140), (2022, 160)])
     = Inl (LibError ''optimizer failed'') \<and>
   fit_and_forecast failing_fit [(2019, 100), (2020, 120), (2021, 140), (2022, 160)] 3 =
     ([Fin 130, Fin 130, Fin 130], [Fin 130, Fin 130, Fin 130], [Fin 130, Fin 130, Fin 130],
      ''fallback-mean (optimizer failed)'')"
  using fit_failure_falls_back[of "[(2019, 100), (2020, 120), (2021, 140), (2022, 160)]" 3
      failing_fit "LibError ''optimizer failed''"]
  by (simp add: numeral_3_eq_3 failing_fit_def Let_def)





section \<open>Properties of the synthesis loop\<close>






lemma build_idem:
  assumes "build_synthetic_if_empty z d = Inr d1"
  shows "build_synthetic_if_empty z d1 = Inr d1"
proof (cases "cases_yearly d1 = []")
  case False
  then show ?thesis by (simp add: build_synthetic_if_empty_def)
next
  case True
  show ?thesis
  proof (cases "cases_yearly d = []")
    case False
    with assms have "d1 = d" by (simp add: build_synthetic_if_empty_def)
    with False True show ?thesis by simp
  next
    case e: True
    with assms obtain rows where
      r: "synth_rows z YEARS (select_totals d) 0 = Inr rows"
      and d1: "d1 = d\<lparr>cases_yearly := insert_do_nothing (cases_yearly d) rows\<rparr>"
      by (auto simp: build_synthetic_if_empty_def split: sum.splits)
    have st: "select_totals d1 = select_totals d" using d1 by (simp add: select_totals_def)
    have "d1\<lparr>cases_yearly := insert_do_nothing (cases_yearly d1) rows\<rparr> = d1"
      using d1 True e by simp
    then show ?thesis using True st r by (simp add: build_synthetic_if_empty_def)
  qed
qed

text \<open>
  C8. When the series table has a row, the synthesis step returns the database unchanged.
  The step is idempotent, so a second run of \<open>main\<close> finds the database of the first run
  and leaves it, and the number of its rows, as they are.
\<close>

theorem synthesis_skipped_when_populated:
  "(cases_yearly d \<noteq> [] \<longrightarrow> build_synthetic_if_empty z d = Inr d) \<and>
   (\<forall>d1. build_synthetic_if_empty z d = Inr d1 \<longrightarrow> build_synthetic_if_empty z d1 = Inr d1) \<and>
   (\<forall>d1 r1 d2 r2. main z fit d = Inr (d1, r1) \<and> main z fit d1 = Inr (d2, r2) \<longrightarrow>
        d2 = d1 \<and> length (cases_yearly d2) = length (cases_yearly d1))"
proof (intro conjI allI impI)
  assume "cases_yearly d \<noteq> []"
  then show "build_synthetic_if_empty z d = Inr d"
    by (simp add: build_synthetic_if_empty_def)
next
  fix d1 assume "build_synthetic_if_empty z d = Inr d1"
  then show "build_synthetic_if_empty z d1 = Inr d1" by (rule build_idem)
next
  fix d1 r1 d2 r2
  assume a: "main z fit d = Inr (d1, r1) \<and> main z fit d1 = Inr (d2, r2)"
  then have "build_synthetic_if_empty z d = Inr d1"
    by (auto simp: main_def split: sum.splits)
  then have "build_synthetic_if_empty z d1 = Inr d1" by (rule build_idem)
  moreover from a have "build_synthetic_if_empty z d1 = Inr d2"
    by (auto simp: main_def split: sum.splits)
  ultimately show "d2 = d1" by simp
  then show "length (cases_yearly d2) = length (cases_yearly d1)" by simp
qed


section \<open>Properties of the orchestrator\<close>

lemma collect_Inr_map:
  "collect f xs = Inr ys \<Longrightarrow> map f xs = map Inr ys"
proof (induction xs arbitrary: ys)
  case Nil
  then show ?case by simp
next
  case (Cons x xs)
  then show ?case by (auto split: sum.splits)
qed

lemma collect_total:
  "(\<And>x. x \<in> set xs \<Longrightarrow> \<exists>y. f x = Inr y) \<Longrightarrow> \<exists>ys. collect f xs = Inr ys"
proof (induction xs)
  case Nil
  then show ?case by simp
next
  case (Cons x xs)
  from Cons.prems[of x] obtain y where y: "f x = Inr y" by auto
  from Cons.IH Cons.prems obtain ys where "collect f xs = Inr ys" by auto
  with y have "f x = Inr y" "collect f xs = Inr ys" by simp_all
  then show ?case by simp
qed

lemma collect_filter_concat:
  assumes "collect f xs = Inr yss" and "distinct (map fst xs)" and "(k, v) \<in> set xs"
    and "\<And>x ys r. x \<in> set xs \<Longrightarrow> f x = Inr ys \<Longrightarrow> r \<in> set ys \<Longrightarrow> fst r = fst x"
  shows "\<exists>ys. f (k, v) = Inr ys \<and> filter (\<lambda>r. fst r = k) (concat yss) = ys"
  using assms
proof (induction xs arbitrary: yss)
  case Nil
  then show ?case by simp
next
  case (Cons x xs)
  from Cons.prems(1) obtain y ys' where
    fx: "f x = Inr y" and c: "collect f xs = Inr ys'" and yss: "yss = y # ys'"
    by (auto split: sum.splits)
  have own: "\<forall>r\<in>set y. fst r = fst x" using Cons.prems(4)[OF _ fx] by simp
  show ?case
  proof (cases "x = (k, v)")
    case True
    have rest: "filter (\<lambda>r. fst r = k) (concat ys') = []"
    proof -
      have "\<forall>r \<in> set (concat ys'). fst r \<noteq> k"
      proof
        fix r assume "r \<in> set (concat ys')"
        then obtain zs where zs: "zs \<in> set ys'" "r \<in> set zs" by auto
        from collect_Inr_map[OF c] have "Inr zs \<in> set (map f xs)" using zs(1) by simp
        then obtain x' where x': "x' \<in> set xs" "f x' = Inr zs" by auto
        then have "fst r = fst x'" using Cons.prems(4)[of x' zs r] zs(2) by simp
        moreover have "fst x' \<in> set (map fst xs)" using x'(1) by simp
        moreover have "k \<notin> set (map fst xs)" using Cons.prems(2) True by simp
        ultimately show "fst r \<noteq> k" by auto
      qed
      then show ?thesis by (simp add: filter_empty_conv)
    qed
    have "filter (\<lambda>r. fst r = k) y = y" using own True by (simp add: filter_id_conv)
    then show ?thesis using True fx yss rest by simp
  next
    case False
    with Cons.prems(3) have in_xs: "(k, v) \<in> set xs" by simp
    have "k \<in> set (map fst xs)" using in_xs by force
    moreover have "fst x \<notin> set (map fst xs)" using Cons.prems(2) by simp
    ultimately have "fst x \<noteq> k" by auto
    then have none: "filter (\<lambda>r. fst r = k) y = []" using own by (simp add: filter_empty_conv)
    from Cons.prems(2) have d: "distinct (map fst xs)" by simp
    have "\<exists>ys. f (k, v) = Inr ys \<and> filter (\<lambda>r. fst r = k) (concat ys') = ys"
      by (rule Cons.IH[OF c d in_xs]) (use Cons.prems(4) in auto)
    then show ?thesis using yss none by simp
  qed
qed

lemma list_max_Max: "xs \<noteq> [] \<longrightarrow> list_max xs = Max (set xs)"
proof (cases xs)
  case Nil
  then show ?thesis by simp
next
  case (Cons a list)
  then show ?thesis using Max.set_eq_fold[of a list] by simp
qed

lemma map_add_upt_upto:
  "map (\<lambda>i. a + int i) [0..<n] = [a .. a + int n - 1]"
proof (induction n)
  case 0
  then show ?case by simp
next
  case (Suc n)
  have "[a .. a + int (Suc n) - 1] = [a .. a + int n - 1] @ [a + int n]"
    using upto_rec2[of a "a + int n"] by (simp add: add_ac)
  then show ?case using Suc by simp
qed

lemma collect_map_eq:
  "collect f xs = Inr ys \<Longrightarrow> (\<And>x y. x \<in> set xs \<Longrightarrow> f x = Inr y \<Longrightarrow> g y = h x) \<Longrightarrow>
   map g ys = map h xs"
proof (induction xs arbitrary: ys)
  case Nil
  then show ?case by simp
next
  case (Cons x xs)
  from Cons.prems(1) obtain y ys' where
    fx: "f x = Inr y" and c: "collect f xs = Inr ys'" and ys: "ys = y # ys'"
    by (auto split: sum.splits)
  have "map g ys' = map h xs" by (rule Cons.IH[OF c]) (use Cons.prems(2) in auto)
  moreover have "g y = h x" using Cons.prems(2)[of x y] fx by simp
  ultimately show ?case using ys by simp
qed

lemma entity_rows_Inr:
  assumes "entity_rows fit horizon ds (k, df) = Inr rows"
  shows "df \<noteq> [] \<and>
         map (\<lambda>r. (fc_disease r, fc_year r, fc_data_source r)) rows =
         map (\<lambda>i. (k, list_max (map fst df) + 1 + int i, ds)) [0..<nat horizon]"
proof -
  obtain fc lo hi mtag where ff: "fit_and_forecast fit df horizon = (fc, lo, hi, mtag)"
    by (cases "fit_and_forecast fit df horizon") auto
  from assms ff have ne: "df \<noteq> []"
    by (auto simp: entity_rows_def split: if_splits)
  let ?f = "\<lambda>i. case at_index fc i of
                          Inl e \<Rightarrow> Inl e
                        | Inr f \<Rightarrow>
                            (case at_index lo i of
                               Inl e \<Rightarrow> Inl e
                             | Inr l \<Rightarrow>
                                 (case at_index hi i of
                                    Inl e \<Rightarrow> Inl e
                                  | Inr h \<Rightarrow>
                                      Inr (k, list_max (map fst df) + 1 + int i, f, l, h, mtag,
                                           ds)))"
  from assms ff ne have c: "collect ?f [0..<nat horizon] = Inr rows"
    by (simp add: entity_rows_def Let_def)
  have "map (\<lambda>r. (fc_disease r, fc_year r, fc_data_source r)) rows =
         map (\<lambda>i. (k, list_max (map fst df) + 1 + int i, ds)) [0..<nat horizon]"
    by (rule collect_map_eq[OF c]) (auto split: sum.splits)
  with ne show ?thesis by simp
qed

lemma entity_rows_total:
  assumes "df \<noteq> []" and "fit_and_forecast fit df horizon = (fc, lo, hi, method)"
    and "nat horizon \<le> length fc" "nat horizon \<le> length lo" "nat horizon \<le> length hi"
  shows "\<exists>rows. entity_rows fit horizon ds (k, df) = Inr rows"
proof -
  let ?f = "\<lambda>i. case at_index fc i of
                          Inl e \<Rightarrow> Inl e
                        | Inr f \<Rightarrow>
                            (case at_index lo i of
                               Inl e \<Rightarrow> Inl e
                             | Inr l \<Rightarrow>
                                 (case at_index hi i of
                                    Inl e \<Rightarrow> Inl e
                                  | Inr h \<Rightarrow>
                                      Inr (k, list_max (map fst df) + 1 + int i, f, l, h, method,
                                           ds)))"
  have "\<exists>ys. collect ?f [0..<nat horizon] = Inr ys"
  proof (rule collect_total)
    fix i assume "i \<in> set [0..<nat horizon]"
    then have "i < length fc" "i < length lo" "i < length hi" using assms(3-5) by auto
    then show "\<exists>y. ?f i = Inr y" by (simp add: at_index_def)
  qed
  then show ?thesis using assms(1,2) by (simp add: entity_rows_def Let_def)
qed

lemma fit_and_forecast_lengths:
  assumes "\<forall>m fc. fit (series_of df) = Inr m \<and> forecast m horizon = Inr fc \<longrightarrow> nat horizon \<le> length fc"
    and "fit_and_forecast fit df horizon = (fc, lo, hi, method)"
  shows "nat horizon \<le> length fc \<and> length lo = length fc \<and> length hi = length fc"
proof (cases "length (series_of df) < 4 \<or> series_sum (series_of df) = 0")
  case True
  then show ?thesis using assms(2) by (auto simp: fit_and_forecast_def Let_def)
next
  case False
  show ?thesis
  proof (cases "try_fit fit (series_of df) horizon")
    case (Inl e)
    then show ?thesis using assms(2) False by (auto simp: fit_and_forecast_def Let_def)
  next
    case (Inr r)
    then obtain m fc' where m: "fit (series_of df) = Inr m" and fc': "forecast m horizon = Inr fc'"
      by (auto simp: try_fit_def split: sum.splits)
    with assms(1) have l: "nat horizon \<le> length fc'" by blast
    from Inr m fc' assms(2) False have "fc = fc' \<and> length lo = length fc' \<and> length hi = length fc'"
      by (auto simp: fit_and_forecast_def try_fit_def Let_def)
    with l show ?thesis by simp
  qed
qed

lemma fetch_timeseries_eq:
  "fetch_timeseries d =
     (map (\<lambda>k. (k, group_of d k)) (sort (remdups (map fst (sort_key row_key (cases_yearly d))))),
      if (\<exists>x\<in>set (cases_yearly d). row_source x \<noteq> ''synthetic'') then ''real'' else ''synthetic'')"
proof -
  have "list_ex (\<lambda>(disease, y, c, src). src \<noteq> ''synthetic'') (sort_key row_key (cases_yearly d))
      \<longleftrightarrow> (\<exists>x\<in>set (cases_yearly d). row_source x \<noteq> ''synthetic'')"
    by (simp add: list_ex_iff case_prod_beta)
  then show ?thesis
    by (simp add: fetch_timeseries_def Let_def select_group_def)
qed

lemma fetch_keys_distinct: "distinct (map fst (fst (fetch_timeseries d)))"
  by (simp add: fetch_timeseries_eq comp_def)

lemma fetch_member:
  "(k, v) \<in> set (fst (fetch_timeseries d)) \<longleftrightarrow> k \<in> fst ` set (cases_yearly d) \<and> v = group_of d k"
  by (auto simp: fetch_timeseries_eq)

lemma group_years:
  "set (map fst (group_of d k)) = row_year ` {r \<in> set (cases_yearly d). row_disease r = k}"
  by (force simp: select_group_def)

lemma group_nonempty: "k \<in> fst ` set (cases_yearly d) \<Longrightarrow> group_of d k \<noteq> []"
proof -
  assume "k \<in> fst ` set (cases_yearly d)"
  then obtain r where "r \<in> set (cases_yearly d)" "row_disease r = k" by auto
  then have "row_year r \<in> row_year ` {r \<in> set (cases_yearly d). row_disease r = k}" by blast
  then have "row_year ` {r \<in> set (cases_yearly d). row_disease r = k} \<noteq> {}" by blast
  then have "set (map fst (group_of d k)) \<noteq> {}" unfolding group_years .
  then show ?thesis by auto
qed

lemma forecast_rows_source:
  assumes "forecast_rows fit horizon d = Inr rows" and "r \<in> set rows"
  shows "fc_data_source r = snd (fetch_timeseries d)"
proof -
  obtain ts ds where f: "fetch_timeseries d = (ts, ds)" by (cases "fetch_timeseries d")
  with assms(1) obtain rowss where
    c: "collect (entity_rows fit horizon ds) ts = Inr rowss" and rows: "rows = concat rowss"
    by (auto simp: forecast_rows_def split: sum.splits)
  from assms(2) rows obtain ys where ys: "ys \<in> set rowss" "r \<in> set ys" by auto
  from collect_Inr_map[OF c] have "Inr ys \<in> set (map (entity_rows fit horizon ds) ts)"
    using ys(1) by simp
  then obtain x where x: "x \<in> set ts" "entity_rows fit horizon ds x = Inr ys" by auto
  obtain k df where kd: "x = (k, df)" by (cases x)
  from entity_rows_Inr[OF x(2)[unfolded kd]] have
    "map (\<lambda>r. (fc_disease r, fc_year r, fc_data_source r)) ys =
         map (\<lambda>i. (k, list_max (map fst df) + 1 + int i, ds)) [0..<nat horizon]" by simp
  from arg_cong[OF this, of "map (\<lambda>t. snd (snd t))"]
  have "map fc_data_source ys = map (\<lambda>i. ds) [0..<nat horizon]"
    by (simp add: comp_def)
  then have "set (map fc_data_source ys) \<subseteq> {ds}" by auto
  then have "fc_data_source r = ds" using ys(2) by auto
  then show ?thesis using f by simp
qed

lemma forecast_rows_years:
  assumes "forecast_rows fit horizon d = Inr rows"
    and "k \<in> row_disease ` set (cases_yearly d)"
  shows "map fc_year (filter (\<lambda>r. fc_disease r = k) rows) =
         [Max (set (map row_year (filter (\<lambda>x. row_disease x = k) (cases_yearly d)))) + 1 ..
          Max (set (map row_year (filter (\<lambda>x. row_disease x = k) (cases_yearly d)))) + horizon]"
proof -
  obtain ts ds where f: "fetch_timeseries d = (ts, ds)" by (cases "fetch_timeseries d")
  with assms(1) obtain rowss where
    c: "collect (entity_rows fit horizon ds) ts = Inr rowss" and rows: "rows = concat rowss"
    by (auto simp: forecast_rows_def split: sum.splits)
  have dist: "distinct (map fst ts)" using fetch_keys_distinct[of d] f by simp
  have mem: "(k, group_of d k) \<in> set ts" using fetch_member[of k "group_of d k" d] f assms(2) by simp
  have own: "\<And>x ys r. x \<in> set ts \<Longrightarrow> entity_rows fit horizon ds x = Inr ys \<Longrightarrow> r \<in> set ys
      \<Longrightarrow> fst r = fst x"
  proof -
    fix x ys r
    assume a: "x \<in> set ts" "entity_rows fit horizon ds x = Inr ys" "r \<in> set ys"
    obtain k' df where kd: "x = (k', df)" by (cases x)
    from entity_rows_Inr[OF a(2)[unfolded kd]] have
      "map (\<lambda>r. (fc_disease r, fc_year r, fc_data_source r)) ys =
         map (\<lambda>i. (k', list_max (map fst df) + 1 + int i, ds)) [0..<nat horizon]" by simp
    from arg_cong[OF this, of "map fst"]
    have "map fc_disease ys = map (\<lambda>i. k') [0..<nat horizon]"
      by (simp add: comp_def)
    then have "set (map fc_disease ys) \<subseteq> {k'}" by auto
    then show "fst r = fst x" using a(3) kd by auto
  qed
  have "\<exists>ys. entity_rows fit horizon ds (k, group_of d k) = Inr ys
      \<and> filter (\<lambda>r. fst r = k) (concat rowss) = ys"
    by (rule collect_filter_concat[OF c dist mem]) (rule own)
  then obtain ys where
    e: "entity_rows fit horizon ds (k, group_of d k) = Inr ys"
    and fl: "filter (\<lambda>r. fst r = k) (concat rowss) = ys" by blast
  from entity_rows_Inr[OF e] have
    "map (\<lambda>r. (fc_disease r, fc_year r, fc_data_source r)) ys =
         map (\<lambda>i. (k, list_max (map fst (group_of d k)) + 1 + int i, ds)) [0..<nat horizon]"
    by simp
  from arg_cong[OF this, of "map (\<lambda>t. fst (snd t))"]
  have y: "map fc_year ys = map (\<lambda>i. list_max (map fst (group_of d k)) + 1 + int i) [0..<nat horizon]"
    by (simp add: comp_def)
  have ne: "map fst (group_of d k) \<noteq> []" using group_nonempty[OF assms(2)] by simp
  have "set (map row_year (filter (\<lambda>x. row_disease x = k) (cases_yearly d)))
       = set (map fst (group_of d k))"
    unfolding group_years by auto
  then have mx: "list_max (map fst (group_of d k)) =
       Max (set (map row_year (filter (\<lambda>x. row_disease x = k) (cases_yearly d))))"
    using list_max_Max[of "map fst (group_of d k)"] ne by simp
  show ?thesis
  proof (cases "0 \<le> horizon")
    case True
    then show ?thesis using y fl rows mx map_add_upt_upto[of "list_max (map fst (group_of d k)) + 1" "nat horizon"]
      by (simp add: add_ac)
  next
    case False
    then show ?thesis using y fl rows mx by simp
  qed
qed

lemma forecast_rows_total:
  assumes "\<forall>s m fc. fit s = Inr m \<and> forecast m horizon = Inr fc \<longrightarrow> nat horizon \<le> length fc"
  shows "\<exists>rows. forecast_rows fit horizon d = Inr rows"
proof -
  obtain ts ds where f: "fetch_timeseries d = (ts, ds)" by (cases "fetch_timeseries d")
  have "\<exists>rowss. collect (entity_rows fit horizon ds) ts = Inr rowss"
  proof (rule collect_total)
    fix x assume x: "x \<in> set ts"
    obtain k df where kd: "x = (k, df)" by (cases x)
    from x kd f fetch_member[of k df d] have df: "df = group_of d k" "k \<in> fst ` set (cases_yearly d)"
      by simp_all
    have ne: "df \<noteq> []" using group_nonempty[OF df(2)] df(1) by simp
    obtain fc lo hi mtag where ff: "fit_and_forecast fit df horizon = (fc, lo, hi, mtag)"
      by (cases "fit_and_forecast fit df horizon") auto
    from fit_and_forecast_lengths[OF _ ff] assms
    have "nat horizon \<le> length fc \<and> length lo = length fc \<and> length hi = length fc" by blast
    then show "\<exists>y. entity_rows fit horizon ds x = Inr y"
      using entity_rows_total[OF ne ff, of ds k] kd by simp
  qed
  then show ?thesis using f by (auto simp: forecast_rows_def)
qed

lemma sample_fetch:
  "fetch_timeseries sample_db = ([(''cholera'', [(2021, 5), (2022, 7)])], ''real'')"
  by (simp add: fetch_timeseries_def sample_db_def select_group_def row_key_def)

lemma sample_entity:
  "entity_rows fit 3 ''real'' (''cholera'', [(2021, 5), (2022, 7)]) =
     Inr [(''cholera'', 2023, Fin 6, Fin 6, Fin 6, ''naive-mean'', ''real''),
          (''cholera'', 2024, Fin 6, Fin 6, Fin 6, ''naive-mean'', ''real''),
          (''cholera'', 2025, Fin 6, Fin 6, Fin 6, ''naive-mean'', ''real'')]"
proof -
  have s: "series_of [(2021, 5), (2022, 7)] = [(2021, 5), (2022, 7)]"
    by (simp add: series_of_def)
  have f: "fit_and_forecast fit [(2021, 5), (2022, 7)] 3 =
      ([Fin 6, Fin 6, Fin 6], [Fin 6, Fin 6, Fin 6], [Fin 6, Fin 6, Fin 6], ''naive-mean'')"
    by (simp add: fit_and_forecast_def s series_mean_def series_sum_def numeral_3_eq_3 Let_def)
  have u: "[0..<3] = [0, 1, 2::nat]" by code_simp
  show ?thesis
    by (simp add: entity_rows_def f u at_index_def)
qed

lemma sample_forecast_rows:
  "forecast_rows fit 3 sample_db =
     Inr [(''cholera'', 2023, Fin 6, Fin 6, Fin 6, ''naive-mean'', ''real''),
          (''cholera'', 2024, Fin 6, Fin 6, Fin 6, ''naive-mean'', ''real''),
          (''cholera'', 2025, Fin 6, Fin 6, Fin 6, ''naive-mean'', ''real'')]"
  by (simp add: forecast_rows_def sample_fetch sample_entity)

lemma sample_main:
  "main sample_draws fit sample_db =
     Inr (sample_db,
          [(''cholera'', 2023, Fin 6, Fin 6, Fin 6, ''naive-mean'', ''real''),
           (''cholera'', 2024, Fin 6, Fin 6, Fin 6, ''naive-mean'', ''real''),
           (''cholera'', 2025, Fin 6, Fin 6, Fin 6, ''naive-mean'', ''real'')])"
proof -
  have b: "build_synthetic_if_empty sample_draws sample_db = Inr sample_db"
    by (simp add: build_synthetic_if_empty_def sample_db_def)
  show ?thesis
    by (simp add: main_def b forecast_rows_def sample_fetch sample_entity FORECAST_HORIZON_def)
qed


text \<open>
  C9. Every forecast row of a run carries the same provenance tag: \<open>real\<close> when some row of
  the series table read by the run has a source other than \<open>synthetic\<close>, and
  \<open>synthetic\<close> otherwise.
\<close>

theorem provenance_is_batch_wide:
  assumes "main z fit d = Inr (d', rows)"
  shows "\<forall>r\<in>set rows. fc_data_source r =
           (if (\<exists>x\<in>set (cases_yearly d'). row_source x \<noteq> ''synthetic'')
            then ''real'' else ''synthetic'')"
proof
  fix r assume r: "r \<in> set rows"
  from assms have "forecast_rows fit FORECAST_HORIZON d' = Inr rows"
    by (auto simp: main_def split: sum.splits)
  from forecast_rows_source[OF this r] show "fc_data_source r =
           (if (\<exists>x\<in>set (cases_yearly d'). row_source x \<noteq> ''synthetic'')
            then ''real'' else ''synthetic'')"
    by (simp add: fetch_timeseries_eq)
qed

theorem provenance_is_batch_wide_witness:
  "main sample_draws failing_fit sample_db =
     Inr (sample_db,
          [(''cholera'', 2023, Fin 6, Fin 6, Fin 6, ''naive-mean'', ''real''),
           (''cholera'', 2024, Fin 6, Fin 6, Fin 6, ''naive-mean'', ''real''),
           (''cholera'', 2025, Fin 6, Fin 6, Fin 6, ''naive-mean'', ''real'')]) \<and>
   (\<exists>x\<in>set (cases_yearly sample_db). row_source x \<noteq> ''synthetic'') \<and>
   list_all (\<lambda>r. fc_data_source r = ''real'')
     [(''cholera'', 2023, Fin 6, Fin 6, Fin 6, ''naive-mean'', ''real''),
      (''cholera'', 2024, Fin 6, Fin 6, Fin 6, ''naive-mean'', ''real''),
      (''cholera'', 2025, Fin 6, Fin 6, Fin 6, ''naive-mean'', ''real'')]"
proof -
  have s: "\<exists>x\<in>set (cases_yearly sample_db). row_source x \<noteq> ''synthetic''"
    by (simp add: sample_db_def)
  show ?thesis
    using provenance_is_batch_wide[OF sample_main[of failing_fit]] s sample_main[of failing_fit]
    by simp
qed

text \<open>
  C6. For every disease of the series table, the years of its forecast rows are the years
  from the last observed year plus 1 to the last observed year plus the horizon, the last
  observed year being the maximum year of that disease in the table; \<open>main\<close>, with its
  horizon of 3, emits the three years after the last observed one. The rows are produced
  whenever a fitted model forecasts at least horizon values.
\<close>

theorem forecast_years_follow_last_observed:
  "(forecast_rows fit horizon d = Inr rows \<and> 1 \<le> horizon
      \<and> k \<in> row_disease ` set (cases_yearly d) \<longrightarrow>
      map fc_year (filter (\<lambda>r. fc_disease r = k) rows) =
        [Max (set (map row_year (filter (\<lambda>x. row_disease x = k) (cases_yearly d)))) + 1 ..
         Max (set (map row_year (filter (\<lambda>x. row_disease x = k) (cases_yearly d)))) + horizon])
   \<and> (main z fit d0 = Inr (d', rows') \<and> k' \<in> row_disease ` set (cases_yearly d') \<longrightarrow>
      map fc_year (filter (\<lambda>r. fc_disease r = k') rows') =
        [Max (set (map row_year (filter (\<lambda>x. row_disease x = k') (cases_yearly d')))) + 1,
         Max (set (map row_year (filter (\<lambda>x. row_disease x = k') (cases_yearly d')))) + 2,
         Max (set (map row_year (filter (\<lambda>x. row_disease x = k') (cases_yearly d')))) + 3])
   \<and> ((\<forall>s m fc. fit s = Inr m \<and> forecast m horizon = Inr fc \<longrightarrow> nat horizon \<le> length fc)
      \<longrightarrow> (\<exists>rs. forecast_rows fit horizon d = Inr rs))"
proof (intro conjI impI)
  assume "forecast_rows fit horizon d = Inr rows \<and> 1 \<le> horizon
      \<and> k \<in> row_disease ` set (cases_yearly d)"
  then show "map fc_year (filter (\<lambda>r. fc_disease r = k) rows) =
        [Max (set (map row_year (filter (\<lambda>x. row_disease x = k) (cases_yearly d)))) + 1 ..
         Max (set (map row_year (filter (\<lambda>x. row_disease x = k) (cases_yearly d)))) + horizon]"
    using forecast_rows_years by blast
next
  assume a: "main z fit d0 = Inr (d', rows') \<and> k' \<in> row_disease ` set (cases_yearly d')"
  then have f: "forecast_rows fit 3 d' = Inr rows'"
    by (auto simp: main_def FORECAST_HORIZON_def split: sum.splits)
  have u: "[m + 1 .. m + 3] = [m + 1, m + 2, m + 3]" for m :: int
    by (simp add: upto_rec1)
  from a forecast_rows_years[OF f, of k'] show "map fc_year (filter (\<lambda>r. fc_disease r = k') rows') =
        [Max (set (map row_year (filter (\<lambda>x. row_disease x = k') (cases_yearly d')))) + 1,
         Max (set (map row_year (filter (\<lambda>x. row_disease x = k') (cases_yearly d')))) + 2,
         Max (set (map row_year (filter (\<lambda>x. row_disease x = k') (cases_yearly d')))) + 3]"
    by (simp only: u)
next
  assume "\<forall>s m fc. fit s = Inr m \<and> forecast m horizon = Inr fc \<longrightarrow> nat horizon \<le> length fc"
  then show "\<exists>rs. forecast_rows fit horizon d = Inr rs" by (rule forecast_rows_total)
qed


lemma sample_fit_lengths:
  "\<forall>s m fc. sample_fit s = Inr m \<and> forecast m 3 = Inr fc \<longrightarrow> nat 3 \<le> length fc"
  by (auto simp: sample_fit_def)

theorem synthesis_skipped_when_populated_witness:
  "cases_yearly sample_db \<noteq> [] \<and>
   build_synthetic_if_empty sample_draws sample_db = Inr sample_db \<and>
   main sample_draws failing_fit sample_db =
     Inr (sample_db,
          [(''cholera'', 2023, Fin 6, Fin 6, Fin 6, ''naive-mean'', ''real''),
           (''cholera'', 2024, Fin 6, Fin 6, Fin 6, ''naive-mean'', ''real''),
           (''cholera'', 2025, Fin 6, Fin 6, Fin 6, ''naive-mean'', ''real'')]) \<and>
   length (cases_yearly sample_db) = 2"
proof -
  have n: "cases_yearly sample_db \<noteq> []" "length (cases_yearly sample_db) = 2"
    by (simp_all add: sample_db_def)
  show ?thesis
    using synthesis_skipped_when_populated[of sample_db sample_draws failing_fit] n
      sample_main[of failing_fit]
    by simp
qed


theorem forecast_years_follow_last_observed_witness:
  "forecast_rows sample_fit 3 sample_db =
     Inr [(''cholera'', 2023, Fin 6, Fin 6, Fin 6, ''naive-mean'', ''real''),
          (''cholera'', 2024, Fin 6, Fin 6, Fin 6, ''naive-mean'', ''real''),
          (''cholera'', 2025, Fin 6, Fin 6, Fin 6, ''naive-mean'', ''real'')] \<and>
   (1::int) \<le> 3 \<and> ''cholera'' \<in> row_disease ` set (cases_yearly sample_db) \<and>
   Max (set (map row_year (filter (\<lambda>x. row_disease x = ''cholera'') (cases_yearly sample_db))))
     = 2022 \<and>
   map fc_year (filter (\<lambda>r. fc_disease r = ''cholera'')
       [(''cholera'', 2023, Fin 6, Fin 6, Fin 6, ''naive-mean'', ''real''),
        (''cholera'', 2024, Fin 6, Fin 6, Fin 6, ''naive-mean'', ''real''),
        (''cholera'', 2025, Fin 6, Fin 6, Fin 6, ''naive-mean'', ''real'')])
     = [2022 + 1 .. 2022 + 3] \<and>
   main sample_draws sample_fit sample_db =
     Inr (sample_db,
          [(''cholera'', 2023, Fin 6, Fin 6, Fin 6, ''naive-mean'', ''real''),
           (''cholera'', 2024, Fin 6, Fin 6, Fin 6, ''naive-mean'', ''real''),
           (''cholera'', 2025, Fin 6, Fin 6, Fin 6, ''naive-mean'', ''real'')]) \<and>
   (\<exists>rs. forecast_rows sample_fit 3 sample_db = Inr rs)"
proof -
  have k: "''cholera'' \<in> row_disease ` set (cases_yearly sample_db)"
    by (simp add: sample_db_def)
  have m: "Max (set (map row_year (filter (\<lambda>x. row_disease x = ''cholera'')
      (cases_yearly sample_db)))) = 2022"
    by (simp add: sample_db_def)
  note T = forecast_years_follow_last_observed[of sample_fit 3 sample_db
        "[(''cholera'', 2023, Fin 6, Fin 6, Fin 6, ''naive-mean'', ''real''),
          (''cholera'', 2024, Fin 6, Fin 6, Fin 6, ''naive-mean'', ''real''),
          (''cholera'', 2025, Fin 6, Fin 6, Fin 6, ''naive-mean'', ''real'')]"
        "''cholera''" sample_draws sample_db sample_db
        "[(''cholera'', 2023, Fin 6, Fin 6, Fin 6, ''naive-mean'', ''real''),
          (''cholera'', 2024, Fin 6, Fin 6, Fin 6, ''naive-mean'', ''real''),
          (''cholera'', 2025, Fin 6, Fin 6, Fin 6, ''naive-mean'', ''real'')]"
        "''cholera''", unfolded m]
  have one: "(1::int) \<le> 3" by simp
  have y: "map fc_year (filter (\<lambda>r. fc_disease r = ''cholera'')
       [(''cholera'', 2023, Fin 6, Fin 6, Fin 6, ''naive-mean'', ''real''),
        (''cholera'', 2024, Fin 6, Fin 6, Fin 6, ''naive-mean'', ''real''),
        (''cholera'', 2025, Fin 6, Fin 6, Fin 6, ''naive-mean'', ''real'')])
     = [2022 + 1 .. 2022 + 3]"
    by (rule T[THEN conjunct1, THEN mp]) (intro conjI sample_forecast_rows one k)
  have e: "\<exists>rs. forecast_rows sample_fit 3 sample_db = Inr rs"
    by (rule T[THEN conjunct2, THEN conjunct2, THEN mp]) (rule sample_fit_lengths)
  show ?thesis
    by (intro conjI sample_forecast_rows one k m y sample_main e)
qed

section \<open>Dependence on the order of the batch\<close>
























end
